theory Spec2Isabelle
  imports Complex_Main "HOL-Library.Multiset"
begin

section \<open>Shor notebook: the modular multiplication matrix\<close>

text \<open>
  The notebook \<open>algorithms/algebraic/shor/shor.ipynb\<close> builds the unitary it hands to the
  platform with NumPy: \<open>np.identity\<close>, \<open>np.kron\<close> and the matrix product \<open>@\<close> on
  two-dimensional arrays. An array is modelled as the list of its rows. The entries are
  complex (\<open>dtype=complex\<close>); every value that occurs is 0 or 1, so the float arithmetic of
  NumPy is exact here.
\<close>

type_synonym matrix = "complex list list"

definition identity :: "nat \<Rightarrow> matrix" where
  \<comment> \<open>\<open>np.identity(n)\<close>\<close>
  "identity n = map (\<lambda>i. map (\<lambda>j. if i = j then 1 else 0) [0..<n]) [0..<n]"

definition kron :: "matrix \<Rightarrow> matrix \<Rightarrow> matrix" where
  \<comment> \<open>\<open>np.kron(A, B)\<close>: block \<open>(i, j)\<close> of the result is \<open>A[i, j] * B\<close>\<close>
  "kron A B =
     concat (map (\<lambda>ra. map (\<lambda>rb. concat (map (\<lambda>a. map (\<lambda>b. a * b) rb) ra)) B) A)"

definition dot :: "complex list \<Rightarrow> complex list \<Rightarrow> complex" where
  "dot r c = sum_list (map2 (*) r c)"

definition column :: "matrix \<Rightarrow> nat \<Rightarrow> complex list" where
  "column B j = map (\<lambda>r. r ! j) B"

definition num_columns :: "matrix \<Rightarrow> nat" where
  "num_columns B = (case B of [] \<Rightarrow> 0 | r # _ \<Rightarrow> length r)"

definition matmul :: "matrix \<Rightarrow> matrix \<Rightarrow> matrix" where
  \<comment> \<open>\<open>A @ B\<close> on two-dimensional arrays of matching shapes\<close>
  "matmul A B = map (\<lambda>r. map (\<lambda>j. dot r (column B j)) [0..<num_columns B]) A"

definition get_modular_multiplication_matrix :: matrix where
  "get_modular_multiplication_matrix =
     (let swap = [[1, 0, 0, 0],
                  [0, 0, 1, 0],
                  [0, 1, 0, 0],
                  [0, 0, 0, 1]];
          swap32 = kron (identity 4) swap;
          swap21 = kron (kron (identity 2) swap) (identity 2);
          swap10 = kron swap (identity 4);
          x = [[0, 1], [1, 0]];
          x_all = kron (kron x x) (kron x x);
          u = matmul (matmul (matmul x_all swap10) swap21) swap32
      in u)"

definition MODULAR_MUL_UNITARY :: "real list list" where
  \<comment> \<open>\<open>get_modular_multiplication_matrix().real.tolist()\<close>\<close>
  "MODULAR_MUL_UNITARY = map (map Re) get_modular_multiplication_matrix"

text \<open>
  Notions used to state what the matrix does: the matrix of a map \<open>p\<close> on indices (column
  \<open>j\<close> carries its single 1 in row \<open>p j\<close>), the computational basis vector \<open>|x>\<close> and
  the action of a matrix on a column vector, and the conjugate transpose.
\<close>

definition perm_matrix :: "nat \<Rightarrow> (nat \<Rightarrow> nat) \<Rightarrow> matrix" where
  "perm_matrix n p = map (\<lambda>i. map (\<lambda>j. if i = p j then 1 else 0) [0..<n]) [0..<n]"

definition basis_vector :: "nat \<Rightarrow> nat \<Rightarrow> complex list" where
  "basis_vector n x = map (\<lambda>i. if i = x then 1 else 0) [0..<n]"

definition matvec :: "matrix \<Rightarrow> complex list \<Rightarrow> complex list" where
  "matvec A v = map (\<lambda>r. dot r v) A"

definition adjoint :: "matrix \<Rightarrow> matrix" where
  \<comment> \<open>the conjugate transpose\<close>
  "adjoint A = map (\<lambda>j. map cnj (column A j)) [0..<num_columns A]"

definition times7 :: "nat \<Rightarrow> nat" where
  \<comment> \<open>multiplication by 7 modulo 15 on 1..14, with the two remaining indices exchanged\<close>
  "times7 x = (if x = 0 then 15 else if x = 15 then 0 else 7 * x mod 15)"

definition times13 :: "nat \<Rightarrow> nat" where
  \<comment> \<open>the inverse map: 7 * 13 = 91 = 1 modulo 15\<close>
  "times13 y = (if y = 0 then 15 else if y = 15 then 0 else 13 * y mod 15)"


section \<open>Quantum volume notebook\<close>

text \<open>
  The notebook defines \<open>haar\<close>, \<open>qv_layer\<close>, \<open>qv_model\<close>, \<open>execute_qv\<close>,
  \<open>heavy_outputs_prob\<close>, \<open>round_significant\<close> and \<open>find_qv\<close>. The first four draw
  random numbers and call the platform; what they hand back to \<open>find_qv\<close> is the value
  of \<open>results[0].value\<close>, an object whose \<open>counts\<close> field is a dict from bit strings to
  shot counts. A dict is modelled as the list of its items in insertion order.

  The counts are Python integers; their sums are exact. \<open>np.median\<close> works on
  float64: NumPy holds the counts in an int64 array, converts the one or two middle
  values to float64, adds them in float64 and halves the sum, and the comparison
  \<open>item >= med\<close> converts the integer \<open>item\<close> to float64 as well. A conversion rounds
  to 53 significant bits, to nearest and ties to even, so it changes integers from
  \<open>2^53\<close> on. The model follows NumPy for counts inside the int64 range.

  The rest of \<open>find_qv\<close> computes on float64 too: the division by
  \<open>num_trials * num_shots\<close>, \<open>np.std\<close>, the threshold test against \<open>2 / 3\<close> and
  the rounding of \<open>round_significant\<close>. These are modelled on exact reals. The
  standard deviation of a single value is \<open>0.0\<close> in the source and 0 in the model,
  and for counts below \<open>2^53\<close> a standard deviation is \<open>0.0\<close> in the source exactly
  when it is 0 in the model; apart from that the model of these steps says nothing about
  the last bits of a float.
\<close>

datatype py_error = ValueError | ZeroDivisionError | OverflowError

record execution_details =
  counts :: "(string \<times> int) list"

fun bit_length :: "nat \<Rightarrow> nat" where
  \<comment> \<open>the number of binary digits\<close>
  "bit_length n = (if n = 0 then 0 else Suc (bit_length (n div 2)))"

declare bit_length.simps [simp del]

definition float64_of_int :: "int \<Rightarrow> int" where
  \<comment> \<open>the value of the float64 nearest to an integer: 53 significant bits, ties to even\<close>
  "float64_of_int n =
     (let m = nat \<bar>n\<bar>
      in if m < 2 ^ 53 then n
         else
           let e = bit_length m - 53;
               q = m div 2 ^ e;
               r = m mod 2 ^ e;
               half = 2 ^ (e - 1);
               q' = (if r < half then q
                     else if half < r then q + 1
                     else if even q then q else q + 1)
           in sgn n * int (q' * 2 ^ e))"

definition median :: "int list \<Rightarrow> rat option" where
  \<comment> \<open>\<open>np.median\<close> of a one-dimensional array of integers: the float64 mean of the one or
      two middle values; \<open>None\<close> is the NaN of the empty array\<close>
  "median d =
     (let part = sort d; sz = length d; index = sz div 2
      in if sz = 0 then None
         else if sz mod 2 = 1 then Some (of_int (float64_of_int (part ! index)))
         else Some (of_int (float64_of_int
                      (float64_of_int (part ! (index - 1)) + float64_of_int (part ! index))) / 2))"

fun ge_median :: "int \<Rightarrow> rat option \<Rightarrow> bool" where
  \<comment> \<open>\<open>item >= med\<close> between a Python integer and a float64; every comparison with NaN
      is false\<close>
  "ge_median item None = False"
| "ge_median item (Some med) = (med \<le> of_int (float64_of_int item))"

definition exact_median :: "int list \<Rightarrow> rat option" where
  \<comment> \<open>the median of the values as a number: the middle value of the sorted list, or the
      mean of the two middle values\<close>
  "exact_median d =
     (let part = sort d; sz = length d; index = sz div 2
      in if sz = 0 then None
         else if sz mod 2 = 1 then Some (of_int (part ! index))
         else Some ((of_int (part ! (index - 1)) + of_int (part ! index)) / 2))"

fun heavy_loop :: "rat option \<Rightarrow> int list \<Rightarrow> int \<Rightarrow> int" where
  "heavy_loop med [] heavy = heavy"
| "heavy_loop med (item # rest) heavy =
     heavy_loop med rest (if ge_median item med then heavy + item else heavy)"

definition heavy_outputs_prob :: "execution_details \<Rightarrow> int" where
  "heavy_outputs_prob results =
     (let d = map snd (counts results);
          med = median d
      in heavy_loop med d 0)"

definition rint :: "real \<Rightarrow> int" where
  \<comment> \<open>rounding to the nearest integer, ties to even\<close>
  "rint x = (let f = \<lfloor>x\<rfloor>
             in if x - of_int f < 1 / 2 then f
                else if 1 / 2 < x - of_int f then f + 1
                else if even f then f else f + 1)"

datatype py_float = Finite real | Infinity | Minus_infinity | NaN

definition float_max :: real where
  \<comment> \<open>the largest finite float64\<close>
  "float_max = (2 ^ 53 - 1) * 2 ^ 971"

definition round_significant :: "py_float \<Rightarrow> py_error + py_float" where
  \<comment> \<open>\<open>round(x, -int(floor(log10(abs(x)))))\<close> on a float. \<open>math.log10(0.0)\<close> raises
      ValueError; \<open>floor\<close> raises ValueError on NaN and OverflowError on an infinity;
      \<open>round\<close> of a Python float raises OverflowError when the rounded value is too
      large for a float. The value returned is the float nearest to the decimal rounding
      computed here. In \<open>find_qv\<close> the argument is a finite NumPy float64 between 0
      and 1, for which only the case of 0 raises.\<close>
  "round_significant x =
     (case x of
        NaN \<Rightarrow> Inl ValueError
      | Infinity \<Rightarrow> Inl OverflowError
      | Minus_infinity \<Rightarrow> Inl OverflowError
      | Finite v \<Rightarrow>
          if v = 0 then Inl ValueError
          else
            let ndigits = - \<lfloor>log 10 \<bar>v\<bar>\<rfloor>;
                rounded = of_int (rint (v * 10 powi ndigits)) / 10 powi ndigits
            in if float_max < \<bar>rounded\<bar> then Inl OverflowError else Inr (Finite rounded))"

definition np_std :: "real list \<Rightarrow> real" where
  \<comment> \<open>\<open>np.std\<close>: the square root of the mean of the squared deviations from the mean\<close>
  "np_std xs =
     (let n = real (length xs);
          mean = sum_list xs / n
      in sqrt (sum_list (map (\<lambda>x. \<bar>x - mean\<bar> ^ 2) xs) / n))"

text \<open>
  The platform is a parameter: \<open>run num idx\<close> is the object that
  \<open>execute_qv(synthesize(qv_model(num)), num_shots, preferences)\<close> returns in trial
  \<open>idx\<close> for \<open>num\<close> qubits. The random circuit, the synthesis and the execution are
  all inside it.
\<close>

type_synonym platform = "int \<Rightarrow> nat \<Rightarrow> execution_details"

fun trials_loop :: "(nat \<Rightarrow> execution_details) \<Rightarrow> nat list \<Rightarrow> int \<times> real list \<Rightarrow> int \<times> real list" where
  \<comment> \<open>the loop \<open>for idx in range(num_trials)\<close>\<close>
  "trials_loop run [] (heavy_outputs, heavytostd) = (heavy_outputs, heavytostd)"
| "trials_loop run (idx # rest) (heavy_outputs, heavytostd) =
     (let results = run idx;
          heavy_temp = heavy_outputs_prob results
      in trials_loop run rest
           (heavy_outputs + heavy_temp, heavytostd[idx := of_int heavy_temp]))"

fun estimate_loop ::
  "platform \<Rightarrow> nat \<Rightarrow> nat \<Rightarrow> int \<Rightarrow> int list \<Rightarrow> real list \<times> real list
     \<Rightarrow> py_error + real list \<times> real list" where
  \<comment> \<open>the first loop \<open>for num in qubit_num\<close>, on the arrays \<open>heavy_list\<close> and \<open>std_list\<close>\<close>
  "estimate_loop run num_trials num_shots min_qubits [] (heavy_list, std_list) =
     Inr (heavy_list, std_list)"
| "estimate_loop run num_trials num_shots min_qubits (num # rest) (heavy_list, std_list) =
     (let (heavy_outputs, heavytostd) =
            trials_loop (run num) [0..<num_trials] (0, replicate num_trials 0);
          s = nat (num - min_qubits)
      in if num_trials * num_shots = 0 then Inl ZeroDivisionError
         else
           let heavy_list' = heavy_list[s := of_int heavy_outputs / of_nat (num_trials * num_shots)];
               std = np_std heavytostd / of_nat (num_trials * num_shots);
               std_list' = std_list[s := std]
           in case round_significant (Finite std) of
                Inl e \<Rightarrow> Inl e
              | Inr temp_std \<Rightarrow>
                  estimate_loop run num_trials num_shots min_qubits rest (heavy_list', std_list'))"

fun determine_loop :: "real list \<Rightarrow> real list \<Rightarrow> int \<Rightarrow> int list \<Rightarrow> int \<Rightarrow> int" where
  \<comment> \<open>the second loop \<open>for num in qubit_num\<close>, with its \<open>break\<close>\<close>
  "determine_loop heavy_list std_list min_qubits [] qubit_v = qubit_v"
| "determine_loop heavy_list std_list min_qubits (num # rest) qubit_v =
     (let s = nat (num - min_qubits);
          heavy_is = heavy_list ! s - 2 * (std_list ! s)
      in if 2 / 3 \<le> heavy_is
         then determine_loop heavy_list std_list min_qubits rest num
         else qubit_v)"

definition find_qv :: "platform \<Rightarrow> nat \<Rightarrow> nat \<Rightarrow> int \<Rightarrow> int \<Rightarrow> py_error + real" where
  \<comment> \<open>\<open>np.zeros\<close> raises ValueError on a negative length; \<open>2**qubit_v\<close> is a float for a
      negative exponent\<close>
  "find_qv run num_trials num_shots min_qubits max_qubits =
     (if max_qubits - min_qubits + 1 < 0 then Inl ValueError
      else
        let qubit_num = [min_qubits..max_qubits];
            heavy_list = replicate (nat (max_qubits - min_qubits + 1)) 0;
            std_list = replicate (nat (max_qubits - min_qubits + 1)) 0
        in case estimate_loop run num_trials num_shots min_qubits qubit_num (heavy_list, std_list) of
             Inl e \<Rightarrow> Inl e
           | Inr (heavy_list', std_list') \<Rightarrow>
               Inr (2 powi determine_loop heavy_list' std_list' min_qubits qubit_num 0))"

text \<open>
  The estimates the first loop stores for \<open>num\<close> qubits, written as closed formulas, and
  the test of the second loop on them.
\<close>

definition heavy_count :: "platform \<Rightarrow> int \<Rightarrow> nat \<Rightarrow> int" where
  "heavy_count run num idx = heavy_outputs_prob (run num idx)"


definition std_estimate :: "platform \<Rightarrow> nat \<Rightarrow> nat \<Rightarrow> int \<Rightarrow> real" where
  "std_estimate run num_trials num_shots num =
     np_std (map (\<lambda>idx. of_int (heavy_count run num idx)) [0..<num_trials])
       / of_nat (num_trials * num_shots)"





definition weak_device :: platform where
  "weak_device num idx =
     (if idx = 0
      then \<lparr>counts = [(''000'', 30), (''001'', 30), (''010'', 20), (''011'', 20)]\<rparr>
      else \<lparr>counts = [(''000'', 32), (''001'', 32), (''010'', 18), (''011'', 18)]\<rparr>)"




section \<open>The notebooks as sequences of platform calls\<close>

text \<open>
  The code cells of a notebook run top to bottom. What a notebook does with the platform
  is the sequence of its calls: building a model (\<open>create_model\<close>,
  \<open>construct_grover_model\<close>, \<open>construct_combinatorial_optimization_model\<close>),
  \<open>write_qmod\<close>, \<open>synthesize\<close>, \<open>show\<close>,
  \<open>set_quantum_program_execution_preferences\<close>, \<open>execute\<close>, and the display of a
  value (\<open>print\<close>, the value of the last expression of a cell, \<open>plt.bar\<close>, \<open>pprint\<close>).
  Constructors of configuration and preference objects and the post-processing call
  \<open>get_optimization_solution_from_pyo\<close> are not among the steps looked at and are left
  out. Files that hold several notebooks contribute one sequence per notebook.
\<close>

datatype call = Create_model | Write_qmod | Synthesize | Show | Set_preferences | Execute | Display

definition shor :: "call list" where
  "shor = [Create_model, Write_qmod, Synthesize, Show, Execute, Display]"

definition comparator_example :: "call list" where
  "comparator_example =
     [Create_model, Write_qmod, Synthesize,
      Create_model, Write_qmod, Synthesize, Execute, Display]"

definition extremum_example :: "call list" where
  "extremum_example =
     [Create_model, Write_qmod, Synthesize, Execute, Display,
      Create_model, Write_qmod, Synthesize, Execute, Display]"

definition bitwise_or_example :: "call list" where
  "bitwise_or_example =
     [Create_model, Write_qmod, Synthesize, Execute, Display, Display,
      Create_model, Write_qmod, Synthesize, Execute, Display]"

definition negation_example :: "call list" where
  "negation_example = [Create_model, Write_qmod, Synthesize, Execute, Display]"

definition subtraction_example :: "call list" where
  "subtraction_example =
     [Create_model, Write_qmod, Synthesize, Execute, Display,
      Create_model, Write_qmod, Synthesize, Execute, Display]"

definition suzuki_trotter :: "call list" where
  "suzuki_trotter = [Create_model, Write_qmod, Synthesize]"

definition unitary_example :: "call list" where
  "unitary_example = [Create_model, Write_qmod, Synthesize]"

definition linear_pauli_rotations_example :: "call list" where
  "linear_pauli_rotations_example = [Create_model, Write_qmod, Synthesize]"

definition learning_optimization :: "call list" where
  \<comment> \<open>the last cell repeats the whole tutorial\<close>
  "learning_optimization =
     [Display, Create_model, Synthesize, Execute, Display, Display, Show,
      Display, Create_model, Synthesize, Execute, Display, Show]"

definition grover :: "call list" where
  "grover =
     [Create_model, Write_qmod, Synthesize, Show, Set_preferences, Execute,
      Display, Display, Display]"

definition find_qv_calls :: "nat \<Rightarrow> int list \<Rightarrow> call list" where
  \<comment> \<open>the calls of a run of \<open>find_qv\<close> that returns: per trial \<open>qv_model\<close>,
      \<open>synthesize\<close> and \<open>execute_qv\<close>, per qubit count a \<open>print\<close>, and the final \<open>print\<close>\<close>
  "find_qv_calls num_trials qubit_num =
     concat (map (\<lambda>num.
        concat (replicate num_trials [Create_model, Synthesize, Set_preferences, Execute])
          @ [Display]) qubit_num)
     @ [Display]"

definition quantum_volume :: "call list" where
  \<comment> \<open>the one call that is not commented out: \<open>find_qv(10, 100, 3, 6, preferences)\<close>\<close>
  "quantum_volume = find_qv_calls 10 [3..6]"

definition notebooks :: "call list list" where
  "notebooks =
     [shor, comparator_example, extremum_example, bitwise_or_example, negation_example,
      subtraction_example, suzuki_trotter, unitary_example, learning_optimization,
      linear_pauli_rotations_example, grover, quantum_volume]"

fun in_order :: "('a \<Rightarrow> bool) list \<Rightarrow> 'a list \<Rightarrow> bool" where
  \<comment> \<open>the calls contain, in this order, one call for each of the given kinds\<close>
  "in_order [] cs = True"
| "in_order (p # ps) [] = False"
| "in_order (p # ps) (c # cs) = (if p c then in_order ps cs else in_order (p # ps) cs)"

definition displays :: "call \<Rightarrow> bool" where
  \<comment> \<open>histograms and tables, or the circuit link that \<open>show\<close> prints\<close>
  "displays c \<longleftrightarrow> c = Display \<or> c = Show"

definition all_four_steps :: "call list \<Rightarrow> bool" where
  "all_four_steps cs \<longleftrightarrow>
     in_order [(\<lambda>c. c = Create_model), (\<lambda>c. c = Synthesize), (\<lambda>c. c = Execute), displays] cs"

definition build_then_synthesize :: "call list \<Rightarrow> bool" where
  "build_then_synthesize cs \<longleftrightarrow>
     in_order [(\<lambda>c. c = Create_model), (\<lambda>c. c = Synthesize)] cs"


section \<open>Properties of the modular multiplication matrix\<close>

subsection \<open>Evaluating the matrix\<close>

lemma upt_2: "[0..<2] = [0, 1]"
  by (simp add: upt_rec)

lemma upt_4: "[0..<4] = [0, 1, 2, 3]"
  by (simp add: upt_rec)

lemma upt_16: "[0..<16] = [0, 1, 2, 3, 4, 5, 6, 7, 8, 9, 10, 11, 12, 13, 14, 15]"
  by (simp add: upt_rec)

lemma less_16_cases:
  "(\<forall>j<16. P (j::nat)) \<longleftrightarrow> (\<forall>j\<in>set [0, 1, 2, 3, 4, 5, 6, 7, 8, 9, 10, 11, 12, 13, 14, 15]. P j)"
proof -
  have "{..<16::nat} = set [0..<16]" by auto
  then have "(\<forall>j<16. P j) \<longleftrightarrow> (\<forall>j\<in>set [0..<16]. P j)" by auto
  then show ?thesis by (simp only: upt_16)
qed

lemma swap32_value:
  "kron (identity 4) [[1, 0, 0, 0], [0, 0, 1, 0], [0, 1, 0, 0], [0, 0, 0, 1]]
     = perm_matrix 16 (\<lambda>j. [0, 2, 1, 3, 4, 6, 5, 7, 8, 10, 9, 11, 12, 14, 13, 15] ! j)"
  by (simp add: kron_def identity_def perm_matrix_def upt_4 upt_16)

lemma swap21_value:
  "kron (kron (identity 2) [[1, 0, 0, 0], [0, 0, 1, 0], [0, 1, 0, 0], [0, 0, 0, 1]]) (identity 2)
     = perm_matrix 16 (\<lambda>j. [0, 1, 4, 5, 2, 3, 6, 7, 8, 9, 12, 13, 10, 11, 14, 15] ! j)"
  by (simp add: kron_def identity_def perm_matrix_def upt_2 upt_16)

lemma swap10_value:
  "kron [[1, 0, 0, 0], [0, 0, 1, 0], [0, 1, 0, 0], [0, 0, 0, 1]] (identity 4)
     = perm_matrix 16 (\<lambda>j. [0, 1, 2, 3, 8, 9, 10, 11, 4, 5, 6, 7, 12, 13, 14, 15] ! j)"
  by (simp add: kron_def identity_def perm_matrix_def upt_4 upt_16)

lemma x_all_value:
  "kron (kron [[0, 1], [1, 0]] [[0, 1], [1, 0]]) (kron [[0, 1], [1, 0]] [[0, 1], [1, 0]])
     = perm_matrix 16 (\<lambda>j. 15 - j)"
  by (simp add: kron_def perm_matrix_def upt_16)

lemma product_1:
  "matmul (perm_matrix 16 (\<lambda>j. 15 - j))
          (perm_matrix 16 (\<lambda>j. [0, 1, 2, 3, 8, 9, 10, 11, 4, 5, 6, 7, 12, 13, 14, 15] ! j))
     = perm_matrix 16 (\<lambda>j. [15, 14, 13, 12, 7, 6, 5, 4, 11, 10, 9, 8, 3, 2, 1, 0] ! j)"
  by (simp add: perm_matrix_def matmul_def num_columns_def dot_def column_def upt_16)

lemma product_2:
  "matmul (perm_matrix 16 (\<lambda>j. [15, 14, 13, 12, 7, 6, 5, 4, 11, 10, 9, 8, 3, 2, 1, 0] ! j))
          (perm_matrix 16 (\<lambda>j. [0, 1, 4, 5, 2, 3, 6, 7, 8, 9, 12, 13, 10, 11, 14, 15] ! j))
     = perm_matrix 16 (\<lambda>j. [15, 14, 7, 6, 13, 12, 5, 4, 11, 10, 3, 2, 9, 8, 1, 0] ! j)"
  by (simp add: perm_matrix_def matmul_def num_columns_def dot_def column_def upt_16)

lemma product_3:
  "matmul (perm_matrix 16 (\<lambda>j. [15, 14, 7, 6, 13, 12, 5, 4, 11, 10, 3, 2, 9, 8, 1, 0] ! j))
          (perm_matrix 16 (\<lambda>j. [0, 2, 1, 3, 4, 6, 5, 7, 8, 10, 9, 11, 12, 14, 13, 15] ! j))
     = perm_matrix 16 (\<lambda>j. [15, 7, 14, 6, 13, 5, 12, 4, 11, 3, 10, 2, 9, 1, 8, 0] ! j)"
  by (simp add: perm_matrix_def matmul_def num_columns_def dot_def column_def upt_16)

lemma times7_table:
  "perm_matrix 16 (\<lambda>j. [15, 7, 14, 6, 13, 5, 12, 4, 11, 3, 10, 2, 9, 1, 8, 0] ! j)
     = perm_matrix 16 times7"
  by (simp add: perm_matrix_def times7_def upt_16)

lemma matrix_is_times7: "get_modular_multiplication_matrix = perm_matrix 16 times7"
  unfolding get_modular_multiplication_matrix_def Let_def
  by (simp only: swap32_value swap21_value swap10_value x_all_value
        product_1 product_2 product_3 times7_table)


subsection \<open>The permutation\<close>

lemma perm_matrix_nth:
  "i < n \<Longrightarrow> j < n \<Longrightarrow> perm_matrix n p ! i ! j = (if i = p j then 1 else 0)"
  by (simp add: perm_matrix_def)

lemma perm_matrix_length: "length (perm_matrix n p) = n"
  by (simp add: perm_matrix_def)

lemma perm_matrix_rows:
  "row \<in> set (perm_matrix n p) \<Longrightarrow> length row = n \<and> (\<forall>c\<in>set row. c = 0 \<or> c = 1)"
  by (auto simp add: perm_matrix_def)

lemma dot_basis_vector:
  assumes "length r = n" "x < n"
  shows "dot r (basis_vector n x) = r ! x"
proof -
  have "dot r (basis_vector n x) = (\<Sum>i = 0..<n. r ! i * (if i = x then 1 else 0))"
    using assms by (simp add: dot_def basis_vector_def sum_list_sum_nth)
  also have "\<dots> = (\<Sum>i = 0..<n. if i = x then r ! i else 0)"
    by (rule sum.cong) auto
  also have "\<dots> = r ! x"
    using assms by simp
  finally show ?thesis .
qed

lemma matvec_perm_matrix:
  assumes "x < n"
  shows "matvec (perm_matrix n p) (basis_vector n x) = basis_vector n (p x)"
proof -
  have "dot (map (\<lambda>j. if i = p j then 1 else 0) [0..<n]) (basis_vector n x)
          = (if i = p x then 1 else 0)" for i
    using assms by (simp add: dot_basis_vector)
  then show ?thesis
    by (simp add: matvec_def perm_matrix_def basis_vector_def)
qed

lemma times13_times7: "\<forall>j<16. times7 j < 16 \<and> times13 (times7 j) = j"
  unfolding less_16_cases by (simp add: times7_def times13_def)

lemma times7_times13: "\<forall>i<16. times13 i < 16 \<and> times7 (times13 i) = i"
  unfolding less_16_cases by (simp add: times7_def times13_def)

lemma adjoint_value: "adjoint (perm_matrix 16 times7) = perm_matrix 16 times13"
  by (simp add: adjoint_def perm_matrix_def num_columns_def column_def upt_16
      times7_def times13_def)

lemma times7_times13_product:
  "matmul (perm_matrix 16 times7) (perm_matrix 16 times13) = identity 16"
  by (simp add: perm_matrix_def matmul_def num_columns_def dot_def column_def upt_16
      times7_def times13_def identity_def)

lemma times13_times7_product:
  "matmul (perm_matrix 16 times13) (perm_matrix 16 times7) = identity 16"
  by (simp add: perm_matrix_def matmul_def num_columns_def dot_def column_def upt_16
      times7_def times13_def identity_def)

lemma times7_range: "1 \<le> x \<Longrightarrow> x \<le> 14 \<Longrightarrow> times7 x = 7 * x mod 15"
  by (simp add: times7_def)

text \<open>
  Claim C5. \<open>get_modular_multiplication_matrix\<close> returns a 16 x 16 matrix all of whose
  entries are the numbers 0 and 1, with exactly one 1 in every row and in every column.
  Applied to the basis vector of index \<open>x\<close> it gives the basis vector of index
  \<open>7 * x mod 15\<close> for \<open>1 \<le> x \<le> 14\<close>, and it exchanges the basis vectors 0 and 15.
  It is unitary: its products with its conjugate transpose are the identity.
\<close>

theorem modular_multiplication_matrix_permutation:
  "length get_modular_multiplication_matrix = 16
   \<and> (\<forall>row\<in>set get_modular_multiplication_matrix.
         length row = 16 \<and> (\<forall>c\<in>set row. c = 0 \<or> c = 1))
   \<and> (\<forall>i<16. \<exists>!j. j < 16 \<and> get_modular_multiplication_matrix ! i ! j = 1)
   \<and> (\<forall>j<16. \<exists>!i. i < 16 \<and> get_modular_multiplication_matrix ! i ! j = 1)
   \<and> (\<forall>x. 1 \<le> x \<and> x \<le> 14 \<longrightarrow>
         matvec get_modular_multiplication_matrix (basis_vector 16 x)
           = basis_vector 16 (7 * x mod 15))
   \<and> matvec get_modular_multiplication_matrix (basis_vector 16 0) = basis_vector 16 15
   \<and> matvec get_modular_multiplication_matrix (basis_vector 16 15) = basis_vector 16 0
   \<and> matmul get_modular_multiplication_matrix (adjoint get_modular_multiplication_matrix)
       = identity 16
   \<and> matmul (adjoint get_modular_multiplication_matrix) get_modular_multiplication_matrix
       = identity 16"
proof -
  let ?u = get_modular_multiplication_matrix
  have u: "?u = perm_matrix 16 times7" by (rule matrix_is_times7)
  have len: "length ?u = 16" by (simp add: u perm_matrix_length)
  have rows: "\<forall>row\<in>set ?u. length row = 16 \<and> (\<forall>c\<in>set row. c = 0 \<or> c = 1)"
    unfolding u using perm_matrix_rows by blast
  have entry: "?u ! i ! j = 1 \<longleftrightarrow> i = times7 j" if "i < 16" "j < 16" for i j
    using that by (simp add: u perm_matrix_nth)
  have row1: "\<exists>!j. j < 16 \<and> ?u ! i ! j = 1" if "i < 16" for i
  proof (rule ex1I [of _ "times13 i"])
    show "times13 i < 16 \<and> ?u ! i ! times13 i = 1"
      using that times7_times13 entry by simp
  next
    fix j assume "j < 16 \<and> ?u ! i ! j = 1"
    then have "j < 16" "i = times7 j" using that entry by auto
    then show "j = times13 i" using times13_times7 by simp
  qed
  have col1: "\<exists>!i. i < 16 \<and> ?u ! i ! j = 1" if "j < 16" for j
  proof (rule ex1I [of _ "times7 j"])
    show "times7 j < 16 \<and> ?u ! times7 j ! j = 1"
      using that times13_times7 entry by simp
  next
    fix i assume "i < 16 \<and> ?u ! i ! j = 1"
    then show "i = times7 j" using that entry by auto
  qed
  have act: "matvec ?u (basis_vector 16 x) = basis_vector 16 (times7 x)" if "x < 16" for x
    using that by (simp add: u matvec_perm_matrix)
  have mid: "matvec ?u (basis_vector 16 x) = basis_vector 16 (7 * x mod 15)"
    if "1 \<le> x \<and> x \<le> 14" for x
    using that act [of x] by (simp add: times7_range)
  have a0: "matvec ?u (basis_vector 16 0) = basis_vector 16 15"
    using act [of 0] by (simp add: times7_def)
  have a15: "matvec ?u (basis_vector 16 15) = basis_vector 16 0"
    using act [of 15] by (simp add: times7_def)
  have un1: "matmul ?u (adjoint ?u) = identity 16"
    by (simp only: u adjoint_value times7_times13_product)
  have un2: "matmul (adjoint ?u) ?u = identity 16"
    by (simp only: u adjoint_value times13_times7_product)
  from len rows row1 col1 mid a0 a15 un1 un2 show ?thesis by blast
qed

theorem modular_multiplication_matrix_permutation_witness:
  "(1::nat) \<le> 2 \<and> (2::nat) \<le> 14
   \<and> matvec get_modular_multiplication_matrix (basis_vector 16 2) = basis_vector 16 14
   \<and> length get_modular_multiplication_matrix = 16"
  using modular_multiplication_matrix_permutation by simp


section \<open>Properties of the notebooks' call sequences\<close>

lemma quantum_volume_calls:
  "Execute \<in> set quantum_volume \<and> build_then_synthesize quantum_volume \<and> all_four_steps quantum_volume"
  by code_simp

text \<open>
  Claim C4, as stated, fails: the Suzuki-Trotter example is one of the notebooks, and it
  stops after \<open>synthesize\<close>. It never calls \<open>execute\<close> and displays nothing.
\<close>

theorem suzuki_trotter_stops_after_synthesis:
  "suzuki_trotter \<in> set notebooks \<and> \<not> all_four_steps suzuki_trotter"
  by (simp add: notebooks_def suzuki_trotter_def all_four_steps_def)

text \<open>
  Claim C4, amended. Every notebook builds a model and then calls \<open>synthesize\<close>. Every
  notebook that calls \<open>execute\<close> performs all four steps in order: build, synthesize,
  execute, display. The notebooks that never execute are the Suzuki-Trotter, unitary and
  linear Pauli rotations examples.
\<close>

theorem notebooks_build_then_synthesize:
  "(\<forall>nb\<in>set notebooks. build_then_synthesize nb \<and> (Execute \<in> set nb \<longrightarrow> all_four_steps nb))
   \<and> filter (\<lambda>nb. Execute \<notin> set nb) notebooks
       = [suzuki_trotter, unitary_example, linear_pauli_rotations_example]"
  using quantum_volume_calls
  by (simp add: notebooks_def shor_def comparator_example_def extremum_example_def
      bitwise_or_example_def negation_example_def subtraction_example_def suzuki_trotter_def
      unitary_example_def learning_optimization_def linear_pauli_rotations_example_def
      grover_def all_four_steps_def build_then_synthesize_def displays_def)

theorem notebooks_build_then_synthesize_witness:
  "grover \<in> set notebooks \<and> Execute \<in> set grover
   \<and> build_then_synthesize grover \<and> all_four_steps grover"
proof -
  have "grover \<in> set notebooks" by (simp add: notebooks_def)
  moreover have "Execute \<in> set grover" by (simp add: grover_def)
  ultimately show ?thesis using notebooks_build_then_synthesize by blast
qed


section \<open>Properties of the heavy-output count\<close>

subsection \<open>Conversion to float64\<close>

lemma bit_length_numeral:
  "bit_length (numeral m) = Suc (bit_length (numeral m div 2))"
  "bit_length (Suc 0) = Suc 0"
  "bit_length 0 = 0"
  by (simp_all add: bit_length.simps [of "numeral m"] bit_length.simps [of "Suc 0"]
      bit_length.simps [of 0])

lemma float64_of_int_exact: "\<bar>n\<bar> < 2 ^ 53 \<Longrightarrow> float64_of_int n = n"
  by (simp add: float64_of_int_def Let_def) linarith

lemma float64_ties:
  "float64_of_int 9007199254740992 = 9007199254740992"
  "float64_of_int 9007199254740993 = 9007199254740992"
  "float64_of_int 18014398509481984 = 18014398509481984"
  by (simp_all add: float64_of_int_def Let_def bit_length_numeral)

subsection \<open>The sum over the median\<close>

lemma heavy_loop_sum:
  "heavy_loop med d heavy = heavy + sum_list (filter (\<lambda>item. ge_median item med) d)"
  by (induction d arbitrary: heavy) simp_all

lemma sum_list_filter_le:
  fixes d :: "int list"
  assumes "\<forall>item\<in>set d. 0 \<le> item"
  shows "sum_list (filter P d) \<le> sum_list d"
  using assms by (induction d) auto

lemma member_le_sum_list_int:
  fixes d :: "int list"
  assumes "\<forall>item\<in>set d. 0 \<le> item" "m \<in> set d"
  shows "m \<le> sum_list d"
  using assms
proof (induction d)
  case Nil
  then show ?case by simp
next
  case (Cons a d)
  have "0 \<le> sum_list d" using Cons.prems(1) by (simp add: sum_list_nonneg)
  then show ?case using Cons by auto
qed

lemma heavy_outputs_prob_bounds:
  assumes "\<forall>item\<in>set (map snd (counts results)). 0 \<le> item"
  shows "0 \<le> heavy_outputs_prob results"
    and "heavy_outputs_prob results \<le> sum_list (map snd (counts results))"
proof -
  let ?d = "map snd (counts results)"
  let ?heavy = "filter (\<lambda>item. ge_median item (median ?d)) ?d"
  have val: "heavy_outputs_prob results = sum_list ?heavy"
    by (simp add: heavy_outputs_prob_def Let_def heavy_loop_sum)
  have "\<forall>item\<in>set ?heavy. 0 \<le> item" using assms by auto
  then have "0 \<le> sum_list ?heavy" by (intro sum_list_nonneg) blast
  then show "0 \<le> heavy_outputs_prob results" using val by simp
  have "sum_list ?heavy \<le> sum_list ?d" using assms by (rule sum_list_filter_le)
  then show "heavy_outputs_prob results \<le> sum_list ?d" using val by simp
qed

lemma sort_nth_mem: "i < length d \<Longrightarrow> sort d ! i \<in> set d"
  using nth_mem [of i "sort d"] by simp

lemma median_exact:
  assumes "\<forall>item\<in>set d. 0 \<le> item \<and> item < 2 ^ 52"
  shows "median d = exact_median d"
proof (cases "d = []")
  case True
  then show ?thesis by (simp add: median_def exact_median_def)
next
  case False
  let ?part = "sort d"
  let ?index = "length d div 2"
  have n: "0 < length d" using False by simp
  have small: "0 \<le> ?part ! i \<and> ?part ! i < 2 ^ 52" if "i < length d" for i
    using sort_nth_mem [OF that] assms by blast
  have same: "float64_of_int (?part ! i) = ?part ! i" if "i < length d" for i
    using small [OF that] by (intro float64_of_int_exact) simp
  have i1: "?index < length d" using n by simp
  have i0: "?index - 1 < length d" using n by arith
  have "\<bar>?part ! (?index - 1) + ?part ! ?index\<bar> < 2 ^ 53"
    using small [OF i0] small [OF i1] by simp
  then have sum: "float64_of_int (?part ! (?index - 1) + ?part ! ?index)
                   = ?part ! (?index - 1) + ?part ! ?index"
    by (rule float64_of_int_exact)
  have s0: "float64_of_int (?part ! (?index - Suc 0)) = ?part ! (?index - Suc 0)"
    using same [OF i0] by simp
  have s1: "float64_of_int (?part ! (?index - Suc 0) + ?part ! ?index)
              = ?part ! (?index - Suc 0) + ?part ! ?index"
    using sum by simp
  show ?thesis
    by (simp add: median_def exact_median_def Let_def s0 same [OF i1] s1)
qed

lemma exact_median_some:
  assumes "d \<noteq> []"
  shows "\<exists>med. exact_median d = Some med \<and> med \<le> of_int (Max (set d))"
proof -
  let ?part = "sort d"
  let ?index = "length d div 2"
  have n: "0 < length d" using assms by simp
  have le_max: "?part ! i \<le> Max (set d)" if "i < length d" for i
    using sort_nth_mem [OF that] by simp
  have i1: "?index < length d" using n by simp
  have i0: "?index - 1 < length d" using n by arith
  show ?thesis
  proof (cases "length d mod 2 = 1")
    case True
    then have "exact_median d = Some (of_int (?part ! ?index))"
      using n by (simp add: exact_median_def Let_def)
    then show ?thesis using le_max [OF i1] by simp
  next
    case False
    then have m: "exact_median d
        = Some ((of_int (?part ! (?index - 1)) + of_int (?part ! ?index)) / 2)"
      using n by (simp add: exact_median_def Let_def)
    have "(of_int (?part ! (?index - 1)) + of_int (?part ! ?index)) / 2
            \<le> (of_int (Max (set d)) :: rat)"
      using le_max [OF i0] le_max [OF i1] by (simp add: field_simps)
    with m show ?thesis by blast
  qed
qed

text \<open>
  Claim C2, as stated, fails for counts that float64 cannot hold exactly. With the two
  counts \<open>2^53\<close> and \<open>2^53 + 1\<close> the median of the values is \<open>2^53 + 1/2\<close>, so only
  the second count is greater than or equal to it. \<open>np.median\<close> rounds the second count
  to \<open>2^53\<close> and returns \<open>2^53\<close>, and \<open>heavy_outputs_prob\<close> adds both counts.
\<close>

theorem heavy_outputs_prob_rounds_median:
  "exact_median [9007199254740992, 9007199254740993] = Some (18014398509481985 / 2)
   \<and> (9007199254740992 :: rat) < 18014398509481985 / 2
   \<and> heavy_outputs_prob \<lparr>counts = [(''0'', 9007199254740992), (''1'', 9007199254740993)]\<rparr>
       = 9007199254740992 + 9007199254740993"
  by (simp add: exact_median_def heavy_outputs_prob_def median_def float64_ties)

text \<open>
  Claim C2, amended. For a results object whose counts dict is not empty and holds counts
  from 0 to below \<open>2^52\<close>, \<open>heavy_outputs_prob\<close> returns the sum of the count values
  that are greater than or equal to the median of all the count values. The value is a
  number of shots: it lies between 0 and the total number of shots, and it is at least
  the largest single count, so it is no probability. The division by
  \<open>num_trials * num_shots\<close> is in \<open>find_qv\<close> (see \<open>estimate_loop\<close>).
\<close>

theorem heavy_outputs_prob_sum:
  assumes "counts results \<noteq> []"
    and "\<forall>item\<in>set (map snd (counts results)). 0 \<le> item \<and> item < 2 ^ 52"
  shows "\<exists>med. exact_median (map snd (counts results)) = Some med
           \<and> heavy_outputs_prob results
               = sum_list (filter (\<lambda>item. med \<le> of_int item) (map snd (counts results)))
           \<and> 0 \<le> heavy_outputs_prob results
           \<and> heavy_outputs_prob results \<le> sum_list (map snd (counts results))
           \<and> Max (set (map snd (counts results))) \<le> heavy_outputs_prob results"
proof -
  let ?d = "map snd (counts results)"
  have ne: "?d \<noteq> []" using assms(1) by simp
  have nonneg_d: "\<forall>item\<in>set ?d. 0 \<le> item" using assms(2) by blast
  obtain med where med: "exact_median ?d = Some med" "med \<le> of_int (Max (set ?d))"
    using exact_median_some [OF ne] by blast
  have float_med: "median ?d = Some med"
    using median_exact [OF assms(2)] med(1) by simp
  let ?heavy = "filter (\<lambda>item. med \<le> of_int item) ?d"
  have "ge_median item (Some med) \<longleftrightarrow> med \<le> of_int item" if "item \<in> set ?d" for item
  proof -
    have "\<bar>item\<bar> < 2 ^ 53" using assms(2) that by force
    then show ?thesis by (simp add: float64_of_int_exact)
  qed
  then have "filter (\<lambda>item. ge_median item (Some med)) ?d = ?heavy"
    by (intro filter_cong) simp_all
  then have val: "heavy_outputs_prob results = sum_list ?heavy"
    by (simp add: heavy_outputs_prob_def Let_def float_med heavy_loop_sum)
  have lower: "0 \<le> heavy_outputs_prob results"
    and upper: "heavy_outputs_prob results \<le> sum_list ?d"
    using heavy_outputs_prob_bounds [OF nonneg_d] by simp_all
  have nonneg: "\<forall>item\<in>set ?heavy. 0 \<le> item" using nonneg_d by auto
  have "Max (set ?d) \<in> set ?d" using ne by (intro Max_in) simp_all
  then have "Max (set ?d) \<in> set ?heavy" using med(2) by simp
  then have top: "Max (set ?d) \<le> sum_list ?heavy"
    using nonneg member_le_sum_list_int by blast
  show ?thesis using med(1) val lower upper top by simp
qed

theorem heavy_outputs_prob_sum_witness:
  "counts \<lparr>counts = [(''00'', 3), (''11'', 5)]\<rparr> \<noteq> []
   \<and> (0::int) \<le> 3 \<and> (3::int) < 2 ^ 52 \<and> (0::int) \<le> 5 \<and> (5::int) < 2 ^ 52
   \<and> exact_median [3, 5] = Some 4
   \<and> heavy_outputs_prob \<lparr>counts = [(''00'', 3), (''11'', 5)]\<rparr> = 5
   \<and> (1::int) < 5 \<and> (5::int) \<le> 3 + 5"
  using heavy_outputs_prob_sum [of "\<lparr>counts = [(''00'', 3), (''11'', 5)]\<rparr>"]
  by (simp add: exact_median_def)


section \<open>Properties of the quantum volume search\<close>

subsection \<open>The two loops\<close>

lemma trials_loop_from:
  assumes "i \<le> n" "length heavytostd = n"
  shows "trials_loop run [i..<n] (heavy_outputs, heavytostd)
           = (heavy_outputs + sum_list (map (\<lambda>idx. heavy_outputs_prob (run idx)) [i..<n]),
              take i heavytostd @ map (\<lambda>idx. of_int (heavy_outputs_prob (run idx))) [i..<n])"
  using assms
proof (induction "n - i" arbitrary: i heavy_outputs heavytostd)
  case 0
  then show ?case by simp
next
  case (Suc m)
  then have lt: "i < n" by simp
  let ?v = "heavy_outputs_prob (run i)"
  have step: "trials_loop run [i..<n] (heavy_outputs, heavytostd)
        = trials_loop run [Suc i..<n] (heavy_outputs + ?v, heavytostd[i := of_int ?v])"
    using lt by (simp add: upt_conv_Cons Let_def)
  have tk: "take (Suc i) (heavytostd[i := of_int ?v]) = take i heavytostd @ [of_int ?v]"
    using lt Suc.prems(2) by (simp add: take_Suc_conv_app_nth)
  have "trials_loop run [Suc i..<n] (heavy_outputs + ?v, heavytostd[i := of_int ?v])
        = (heavy_outputs + ?v + sum_list (map (\<lambda>idx. heavy_outputs_prob (run idx)) [Suc i..<n]),
           take (Suc i) (heavytostd[i := of_int ?v])
             @ map (\<lambda>idx. of_int (heavy_outputs_prob (run idx))) [Suc i..<n])"
    using Suc.hyps(2) lt Suc.prems(2) by (intro Suc.hyps(1)) simp_all
  then show ?case
    unfolding step tk using lt by (simp add: upt_conv_Cons)
qed

lemma trials_loop_all:
  "trials_loop (run num) [0..<num_trials] (0, replicate num_trials 0)
     = (sum_list (map (heavy_count run num) [0..<num_trials]),
        map (\<lambda>idx. of_int (heavy_count run num idx)) [0..<num_trials])"
  using trials_loop_from [of 0 num_trials "replicate num_trials 0" "run num" 0]
  by (simp add: heavy_count_def [abs_def])





lemma round_significant_zero: "round_significant (Finite 0) = Inl ValueError"
  by (simp add: round_significant_def)


lemma estimate_loop_raise:
  assumes "0 < num_trials * num_shots"
    and "std_estimate run num_trials num_shots num = 0"
  shows "estimate_loop run num_trials num_shots min_qubits (num # rest) (heavy_list, std_list)
           = Inl ValueError"
  using assms
  by (simp add: trials_loop_all Let_def std_estimate_def round_significant_zero)










subsection \<open>Runs on the example devices\<close>














subsection \<open>A single trial\<close>

text \<open>
  Claim C3. With a single trial per qubit count \<open>find_qv\<close> returns no quantum volume:
  the standard deviation of one value is 0, and \<open>round_significant\<close> takes the
  logarithm of it. The call raises ValueError in the first pass of its first loop,
  whatever the platform returns.
\<close>

theorem find_qv_single_trial_raises:
  assumes "0 < num_shots" "min_qubits \<le> max_qubits"
  shows "find_qv run 1 num_shots min_qubits max_qubits = Inl ValueError"
proof -
  let ?zeros = "replicate (nat (max_qubits - min_qubits + 1)) (0::real)"
  have std0: "std_estimate run 1 num_shots min_qubits = 0"
    by (simp add: std_estimate_def np_std_def)
  have qubit_num: "[min_qubits..max_qubits] = min_qubits # [min_qubits + 1..max_qubits]"
    using assms(2) by (simp add: upto_rec1)
  have pos: "0 < 1 * num_shots" using assms(1) by simp
  have first: "estimate_loop run 1 num_shots min_qubits [min_qubits..max_qubits] (?zeros, ?zeros)
                 = Inl ValueError"
    unfolding qubit_num by (rule estimate_loop_raise [OF pos std0])
  have "\<not> max_qubits - min_qubits + 1 < 0" using assms(2) by simp
  then show ?thesis
    by (simp only: find_qv_def Let_def first if_False sum.case)
qed

theorem find_qv_single_trial_raises_witness:
  "(0::nat) < 10 \<and> (2::int) \<le> 3 \<and> find_qv weak_device 1 10 2 3 = Inl ValueError"
  using find_qv_single_trial_raises [of 10 2 3 weak_device] by simp


section \<open>Properties of the functions that call nothing of the platform\<close>

lemma square_value:
  "matmul (perm_matrix 16 times7) (perm_matrix 16 times7)
     = perm_matrix 16 (\<lambda>j. [0, 4, 8, 12, 1, 5, 9, 13, 2, 6, 10, 14, 3, 7, 11, 15] ! j)"
  by (simp add: perm_matrix_def matmul_def num_columns_def dot_def column_def upt_16 times7_def)

lemma fourth_power_value:
  "matmul (perm_matrix 16 (\<lambda>j. [0, 4, 8, 12, 1, 5, 9, 13, 2, 6, 10, 14, 3, 7, 11, 15] ! j))
          (perm_matrix 16 (\<lambda>j. [0, 4, 8, 12, 1, 5, 9, 13, 2, 6, 10, 14, 3, 7, 11, 15] ! j))
     = identity 16"
  by (simp add: perm_matrix_def matmul_def num_columns_def dot_def column_def upt_16 identity_def)

lemma square_not_identity:
  "perm_matrix 16 (\<lambda>j. [0, 4, 8, 12, 1, 5, 9, 13, 2, 6, 10, 14, 3, 7, 11, 15] ! j) \<noteq> identity 16"
  by (simp add: perm_matrix_def upt_16 identity_def)

text \<open>
  Claim C6, as stated, fails: \<open>get_modular_multiplication_matrix\<close> takes no argument
  and calls nothing of the platform, and its result has a property that is stated and
  checked here. The matrix has order 4, the period of 7 modulo 15 that the notebook sets
  out to find: its fourth power is the identity and its square is not.
\<close>

theorem modular_multiplication_period:
  "matmul (matmul get_modular_multiplication_matrix get_modular_multiplication_matrix)
          (matmul get_modular_multiplication_matrix get_modular_multiplication_matrix)
     = identity 16
   \<and> matmul get_modular_multiplication_matrix get_modular_multiplication_matrix \<noteq> identity 16"
  by (simp only: matrix_is_times7 square_value fourth_power_value square_not_identity
        not_False_eq_True simp_thms)

lemma median_mset:
  assumes "mset d = mset d'"
  shows "median d = median d'"
proof -
  have "sort d = sort d'"
    using assms by (metis sorted_list_of_multiset_mset)
  moreover have "length d = length d'"
    using assms by (rule mset_eq_length)
  ultimately show ?thesis by (simp add: median_def)
qed

lemma heavy_loop_mset:
  assumes "mset d = mset d'"
  shows "heavy_loop med d 0 = heavy_loop med d' 0"
proof -
  have "sum_list (filter P d) = sum_list (filter P d')" for P :: "int \<Rightarrow> bool"
  proof -
    have "mset (filter P d) = mset (filter P d')" using assms by simp
    then show ?thesis by (metis sum_mset_sum_list)
  qed
  then show ?thesis by (simp add: heavy_loop_sum)
qed

text \<open>
  Claim C6, amended. Functions defined in the notebooks have input-output properties that
  are stated and checked with no reference to the platform.
  \<open>get_modular_multiplication_matrix\<close> returns the 16 x 16 permutation matrix of
  multiplication by 7 modulo 15 (with the indices 0 and 15 exchanged), and the fourth
  power of that matrix is the identity. The value of \<open>heavy_outputs_prob\<close>, for counts
  inside the int64 range, depends only on the multiset of the count values, not on the
  keys or the order of the dict.
\<close>

theorem helper_contracts:
  "get_modular_multiplication_matrix = perm_matrix 16 times7
   \<and> matmul (matmul get_modular_multiplication_matrix get_modular_multiplication_matrix)
         (matmul get_modular_multiplication_matrix get_modular_multiplication_matrix)
       = identity 16
   \<and> ((\<forall>item\<in>set (map snd (counts results)). \<bar>item\<bar> < 2 ^ 63)
        \<and> mset (map snd (counts results)) = mset (map snd (counts results'))
        \<longrightarrow> heavy_outputs_prob results = heavy_outputs_prob results')"
proof -
  have "heavy_outputs_prob results = heavy_outputs_prob results'"
    if "mset (map snd (counts results)) = mset (map snd (counts results'))"
    using that median_mset [OF that] heavy_loop_mset [OF that]
    by (simp add: heavy_outputs_prob_def Let_def)
  moreover have "matmul (matmul get_modular_multiplication_matrix get_modular_multiplication_matrix)
         (matmul get_modular_multiplication_matrix get_modular_multiplication_matrix)
       = identity 16"
    by (simp only: matrix_is_times7 square_value fourth_power_value)
  ultimately show ?thesis using matrix_is_times7 by blast
qed

theorem helper_contracts_witness:
  "\<bar>3::int\<bar> < 2 ^ 63 \<and> \<bar>5::int\<bar> < 2 ^ 63
   \<and> mset (map snd (counts \<lparr>counts = [(''00'', 3), (''11'', 5)]\<rparr>))
     = mset (map snd (counts \<lparr>counts = [(''1'', 5), (''0'', 3)]\<rparr>))
   \<and> heavy_outputs_prob \<lparr>counts = [(''00'', 3), (''11'', 5)]\<rparr>
     = heavy_outputs_prob \<lparr>counts = [(''1'', 5), (''0'', 3)]\<rparr>"
  using helper_contracts [of "\<lparr>counts = [(''00'', 3), (''11'', 5)]\<rparr>"
      "\<lparr>counts = [(''1'', 5), (''0'', 3)]\<rparr>"]
  by (simp add: add_mset_commute)

end
